theory Spec2Isabelle
  imports Main "HOL-Library.AList"
begin

section \<open>JavaScript values and objects\<close>

text \<open>
  \<open>ComponentState\<close> and \<open>ComponentMeta\<close> are \<open>any\<close> in \<open>interfaces.ts\<close>. The values of
  the model are plain data: the primitives and the objects written as literals, whose
  prototype is \<open>Object.prototype\<close> and whose properties are own, enumerable and
  writable. An object carries its identity, a number that two values share exactly when
  they are the same object. Numbers are the integers and \<open>NaN\<close>; every other double is
  truthy and is treated by the stores like a non-zero integer. Functions and other
  built-in objects are not values that a caller stores here; they appear only as what
  a read finds on \<open>Object.prototype\<close>.
\<close>

datatype jsval =
    JUndefined
  | JNull
  | JBool bool
  | JNum int
  | JNaN
  | JStr string
  | JObj nat "(string \<times> jsval) list"

text \<open>The own properties of an object, in insertion order.\<close>

type_synonym jsobject = "(string \<times> jsval) list"

text \<open>\<open>!!v\<close>: the falsy values are \<open>undefined\<close>, \<open>null\<close>, \<open>false\<close>, \<open>0\<close>, \<open>NaN\<close> and \<open>""\<close>.\<close>

fun truthy :: "jsval \<Rightarrow> bool" where
  "truthy JUndefined = False"
| "truthy JNull = False"
| "truthy (JBool b) = b"
| "truthy (JNum n) = (n \<noteq> 0)"
| "truthy JNaN = False"
| "truthy (JStr s) = (s \<noteq> [])"
| "truthy (JObj r properties) = True"

text \<open>
  \<open>Object.is(a, b)\<close>: identity on objects, equality on primitives (\<open>NaN\<close> is \<open>NaN\<close>; the
  model has no negative zero).
\<close>

fun object_is :: "jsval \<Rightarrow> jsval \<Rightarrow> bool" where
  "object_is (JObj r properties) (JObj r' properties') = (r = r')"
| "object_is a b = (a = b)"

text \<open>The own property of a list of own properties, if there is one.\<close>

definition js_get :: "(string \<times> 'v) list \<Rightarrow> string \<Rightarrow> 'v option" where
  "js_get obj key = map_of obj key"

text \<open>\<open>Object.keys(obj)\<close>: the own keys.\<close>

definition js_keys :: "(string \<times> 'v) list \<Rightarrow> string list" where
  "js_keys obj = map fst obj"

text \<open>
  The own properties of \<open>{ ...obj, [key]: v }\<close>: a spread copies the own properties and
  a computed key defines an own property, whatever its name. An existing key keeps its
  place and takes the new value, a new key goes to the end.
\<close>

definition js_set :: "string \<Rightarrow> 'v \<Rightarrow> (string \<times> 'v) list \<Rightarrow> (string \<times> 'v) list" where
  "js_set key v obj = AList.update key v obj"

text \<open>\<open>{ ...base, ...extra }\<close>: the properties of \<open>extra\<close> are written over \<open>base\<close> in order.\<close>

definition js_spread :: "(string \<times> 'v) list \<Rightarrow> (string \<times> 'v) list \<Rightarrow> (string \<times> 'v) list" where
  "js_spread base extra = fold (\<lambda>(key, v) obj. js_set key v obj) extra base"

text \<open>\<open>delete obj[key]\<close> on a copy.\<close>

definition js_delete :: "string \<Rightarrow> (string \<times> 'v) list \<Rightarrow> (string \<times> 'v) list" where
  "js_delete key obj = AList.delete key obj"

text \<open>A JavaScript object never holds a key twice.\<close>

definition js_object :: "(string \<times> 'v) list \<Rightarrow> bool" where
  "js_object obj = distinct (js_keys obj)"

subsection \<open>Reading through \<open>Object.prototype\<close>\<close>

text \<open>
  The properties of \<open>Object.prototype\<close>: eleven methods, which are writable data
  properties, and the accessor \<open>__proto__\<close>.
\<close>

definition object_prototype_methods :: "string list" where
  "object_prototype_methods =
     [''constructor'', ''__defineGetter__'', ''__defineSetter__'', ''hasOwnProperty'',
      ''__lookupGetter__'', ''__lookupSetter__'', ''isPrototypeOf'', ''propertyIsEnumerable'',
      ''toString'', ''valueOf'', ''toLocaleString'']"

definition inherited_key :: "string \<Rightarrow> bool" where
  "inherited_key key = (key = ''__proto__'' \<or> key \<in> set object_prototype_methods)"

text \<open>
  \<open>obj[key]\<close> on an object that a literal or a spread created, so that its prototype is
  \<open>Object.prototype\<close>: the own property, else the built-in that \<open>Object.prototype\<close> has
  under the key (for \<open>__proto__\<close> the prototype itself), else \<open>undefined\<close>. A built-in is
  named by its key; it is truthy and has no property that this program defines.
\<close>

datatype 'v lookup = Own 'v | Inherited string | Undefined

definition js_lookup :: "(string \<times> 'v) list \<Rightarrow> string \<Rightarrow> 'v lookup" where
  "js_lookup obj key =
     (case js_get obj key of
        Some v \<Rightarrow> Own v
      | None \<Rightarrow> if inherited_key key then Inherited key else Undefined)"

text \<open>\<open>v[key]\<close> on what a read returned: a property of an own object, nothing otherwise.\<close>

fun js_prop :: "jsobject lookup \<Rightarrow> string \<Rightarrow> jsval option" where
  "js_prop (Own properties) key = js_get properties key"
| "js_prop v key = None"

subsection \<open>The mappings of the state store\<close>

text \<open>
  The four mappings of the state store are the only objects of the program whose
  prototype can change: a removal fills a fresh object by assignments
  \<open>object[key] = value\<close>, and an assignment to \<open>__proto__\<close> reaches the setter of
  \<open>Object.prototype\<close>. A mapping is therefore its own properties and its prototype:
  \<open>Object.prototype\<close>, \<open>null\<close>, or an object value.
\<close>

datatype proto = ObjectPrototype | NullPrototype | ValuePrototype nat jsobject

record jsmap =
  own :: jsobject
  prototype :: proto

text \<open>\<open>{}\<close>.\<close>

definition empty_map :: jsmap where
  "empty_map = \<lparr>own = [], prototype = ObjectPrototype\<rparr>"

text \<open>\<open>{ ...m, [key]: v }\<close>: a new object with the own properties of \<open>m\<close> and the key.\<close>

definition js_extend :: "string \<Rightarrow> jsval \<Rightarrow> jsmap \<Rightarrow> jsmap" where
  "js_extend key v m = \<lparr>own = js_set key v (own m), prototype = ObjectPrototype\<rparr>"

text \<open>What a read can return: a value, or a built-in of \<open>Object.prototype\<close>.\<close>

datatype jsread = Val jsval | Builtin string

fun truthy_read :: "jsread \<Rightarrow> bool" where
  "truthy_read (Val v) = truthy v"
| "truthy_read (Builtin name) = True"

fun read_is :: "jsread \<Rightarrow> jsread \<Rightarrow> bool" where
  "read_is (Val a) (Val b) = object_is a b"
| "read_is (Builtin a) (Builtin b) = (a = b)"
| "read_is a b = False"

text \<open>
  A read that reaches \<open>Object.prototype\<close>: the getter of \<open>__proto__\<close> returns the
  prototype of the object that was read, a method name gives the method, any other key
  \<open>undefined\<close>.
\<close>

definition from_Object_prototype :: "jsread \<Rightarrow> string \<Rightarrow> jsread" where
  "from_Object_prototype receiver_prototype key =
     (if key = ''__proto__'' then receiver_prototype
      else if key \<in> set object_prototype_methods then Builtin key
      else Val JUndefined)"

text \<open>\<open>m[key]\<close>: the own property, else what the prototype chain has.\<close>

definition js_read :: "jsmap \<Rightarrow> string \<Rightarrow> jsread" where
  "js_read m key =
     (case js_get (own m) key of
        Some v \<Rightarrow> Val v
      | None \<Rightarrow>
          (case prototype m of
             ObjectPrototype \<Rightarrow> from_Object_prototype (Builtin ''Object.prototype'') key
           | NullPrototype \<Rightarrow> Val JUndefined
           | ValuePrototype r properties \<Rightarrow>
               (case js_get properties key of
                  Some v \<Rightarrow> Val v
                | None \<Rightarrow> from_Object_prototype (Val (JObj r properties)) key)))"

text \<open>
  The setter of \<open>__proto__\<close>: an object or \<open>null\<close> becomes the prototype, any other value
  is ignored.
\<close>

fun set_prototype :: "jsval \<Rightarrow> jsmap \<Rightarrow> jsmap" where
  "set_prototype (JObj r properties) m = m\<lparr>prototype := ValuePrototype r properties\<rparr>"
| "set_prototype JNull m = m\<lparr>prototype := NullPrototype\<rparr>"
| "set_prototype v m = m"

text \<open>
  Whether an assignment to \<open>__proto__\<close> on an object without that own key finds the
  accessor of \<open>Object.prototype\<close>: not under a \<open>null\<close> prototype, and not when the
  prototype object has \<open>__proto__\<close> as an own data property.
\<close>

definition reaches_setter :: "jsmap \<Rightarrow> bool" where
  "reaches_setter m =
     (case prototype m of
        ObjectPrototype \<Rightarrow> True
      | NullPrototype \<Rightarrow> False
      | ValuePrototype r properties \<Rightarrow> js_get properties ''__proto__'' = None)"

text \<open>
  \<open>m[key] = v\<close>: an own key takes the value; \<open>__proto__\<close>, when it is not an own key and
  the accessor is found, runs the setter and stores nothing; any other key becomes an
  own property (the data properties that a prototype may have under it are writable).
\<close>

definition js_assign :: "string \<Rightarrow> jsval \<Rightarrow> jsmap \<Rightarrow> jsmap" where
  "js_assign key v m =
     (if js_get (own m) key \<noteq> None then m\<lparr>own := js_set key v (own m)\<rparr>
      else if key = ''__proto__'' \<and> reaches_setter m then set_prototype v m
      else m\<lparr>own := js_set key v (own m)\<rparr>)"

section \<open>The state store (\<open>use-state.ts\<close>)\<close>

record FormState =
  formState :: jsmap
  displayState :: jsmap
  formMeta :: jsmap
  displayMeta :: jsmap
  stateChanged :: bool

text \<open>
  The action object \<open>{ type, stateKey, state?, meta? }\<close>; an optional field that the
  dispatcher leaves out reads as \<open>undefined\<close>.
\<close>

record StateAction =
  sa_type :: string
  sa_stateKey :: string
  sa_state :: jsval
  sa_meta :: jsval

definition SET_INITIAL_STATE :: string where
  "SET_INITIAL_STATE = ''FORM_STATE.INITIAL_STATE.SET''"

definition SET_INITIAL_META :: string where
  "SET_INITIAL_META = ''FORM_STATE.INITIAL_META.SET''"

definition SET_FORM_STATE :: string where
  "SET_FORM_STATE = ''FORM_STATE.STATE.SET''"

definition SET_FORM_META :: string where
  "SET_FORM_META = ''FORM_STATE.META.SET''"

definition REMOVE_FORM_STATE :: string where
  "REMOVE_FORM_STATE = ''FORM_STATE.STATE.REMOVE''"

definition REMOVE_FORM_META :: string where
  "REMOVE_FORM_META = ''FORM_STATE.META.REMOVE''"

text \<open>
  The callback of the two \<open>reduce\<close> calls of a removal:
  \<open>if (key !== action.stateKey) object[key] = source[key]; return object\<close>. The key
  comes from \<open>Object.keys(source)\<close>, so \<open>source[key]\<close> is the own property.
\<close>

definition remove_step :: "string \<Rightarrow> jsmap \<Rightarrow> string \<Rightarrow> jsmap \<Rightarrow> jsmap" where
  "remove_step stateKey source key object =
     (if key \<noteq> stateKey
      then (case js_get (own source) key of
              Some v \<Rightarrow> js_assign key v object
            | None \<Rightarrow> object)
      else object)"

text \<open>
  \<open>Object.keys(source).reduce(callback, acc)\<close>. The accumulator is one object, mutated in
  place and returned.
\<close>

definition remove_reduce :: "string \<Rightarrow> jsmap \<Rightarrow> jsmap \<Rightarrow> jsmap" where
  "remove_reduce stateKey source acc =
     fold (remove_step stateKey source) (js_keys (own source)) acc"

text \<open>
  What the two \<open>reduce\<close> calls of a removal leave in the accumulator that starts as
  \<open>{}\<close>.
\<close>

definition rebuild :: "string \<Rightarrow> jsmap \<Rightarrow> jsmap" where
  "rebuild stateKey source =
     remove_reduce stateKey source (remove_reduce stateKey source empty_map)"

text \<open>
  The reducer. In the two removal cases both properties of the returned object are
  computed by a \<open>reduce\<close> into the same accumulator (\<open>fs\<close>, respectively \<open>fm\<close>, created
  empty at the top of the call): the first \<open>reduce\<close> fills it, the second runs over it
  again, and both properties refer to that one object.
\<close>

definition state_reducer :: "FormState \<Rightarrow> StateAction \<Rightarrow> FormState" where
  "state_reducer state action =
     (let fs = empty_map; fm = empty_map in
      if sa_type action = SET_INITIAL_STATE then
        state\<lparr>displayState :=
                js_extend (sa_stateKey action) (sa_state action) (displayState state),
              stateChanged := False\<rparr>
      else if sa_type action = SET_INITIAL_META then
        state\<lparr>displayMeta :=
                js_extend (sa_stateKey action) (sa_meta action) (displayMeta state),
              stateChanged := False\<rparr>
      else if sa_type action = SET_FORM_STATE then
        state\<lparr>formState := js_extend (sa_stateKey action) (sa_state action) (formState state),
              displayState :=
                js_extend (sa_stateKey action) (sa_state action) (displayState state),
              stateChanged := True\<rparr>
      else if sa_type action = SET_FORM_META then
        state\<lparr>formMeta := js_extend (sa_stateKey action) (sa_meta action) (formMeta state),
              displayMeta :=
                js_extend (sa_stateKey action) (sa_meta action) (displayMeta state),
              stateChanged := True\<rparr>
      else if sa_type action = REMOVE_FORM_STATE then
        (let fs1 = remove_reduce (sa_stateKey action) (displayState state) fs;
             fs2 = remove_reduce (sa_stateKey action) (displayState state) fs1
         in state\<lparr>formState := fs2, displayState := fs2, stateChanged := True\<rparr>)
      else if sa_type action = REMOVE_FORM_META then
        (let fm1 = remove_reduce (sa_stateKey action) (displayMeta state) fm;
             fm2 = remove_reduce (sa_stateKey action) (displayMeta state) fm1
         in state\<lparr>formMeta := fm2, displayMeta := fm2, stateChanged := True\<rparr>)
      else state)"

text \<open>The state \<open>useReducer\<close> starts from.\<close>

definition state_initialState :: FormState where
  "state_initialState =
     \<lparr>formState = empty_map, displayState = empty_map, formMeta = empty_map,
      displayMeta = empty_map, stateChanged = False\<rparr>"

text \<open>
  The functions returned by \<open>useFormState\<close>. \<open>dispatch\<close> hands the action to the reducer;
  actions dispatched in one call are reduced in the order of dispatch, so a function
  that dispatches is the composition of the reducer steps, on the store passed
  explicitly.
\<close>

definition getComponentState :: "FormState \<Rightarrow> string \<Rightarrow> jsread" where
  "getComponentState st key = js_read (displayState st) key"

definition getFormState :: "FormState \<Rightarrow> jsmap" where
  "getFormState st = displayState st"

definition getComponentMeta :: "FormState \<Rightarrow> string \<Rightarrow> jsread" where
  "getComponentMeta st key = js_read (displayMeta st) key"

definition getFormMeta :: "FormState \<Rightarrow> jsmap" where
  "getFormMeta st = displayMeta st"

definition setFormState :: "string \<Rightarrow> jsval \<Rightarrow> jsval \<Rightarrow> FormState \<Rightarrow> FormState" where
  "setFormState stateKey state meta st =
     (let st1 = (if truthy state
                 then state_reducer st
                        \<lparr>sa_type = SET_FORM_STATE, sa_stateKey = stateKey,
                         sa_state = state, sa_meta = JUndefined\<rparr>
                 else st)
      in if truthy meta
         then state_reducer st1
                \<lparr>sa_type = SET_FORM_META, sa_stateKey = stateKey,
                 sa_state = JUndefined, sa_meta = meta\<rparr>
         else st1)"

definition removeFormState :: "string \<Rightarrow> FormState \<Rightarrow> FormState" where
  "removeFormState stateKey st =
     state_reducer
       (state_reducer st
          \<lparr>sa_type = REMOVE_FORM_STATE, sa_stateKey = stateKey,
           sa_state = JUndefined, sa_meta = JUndefined\<rparr>)
       \<lparr>sa_type = REMOVE_FORM_META, sa_stateKey = stateKey,
        sa_state = JUndefined, sa_meta = JUndefined\<rparr>"

text \<open>
  The setter that \<open>setInitialState\<close> passes to its callback:
  \<open>(stateKey, state, meta) => { if (!!state) dispatch(SET_INITIAL_STATE);
  if (!!meta) dispatch(SET_INITIAL_META) }\<close>.
\<close>

definition initialSetter :: "string \<Rightarrow> jsval \<Rightarrow> jsval \<Rightarrow> FormState \<Rightarrow> FormState" where
  "initialSetter stateKey state meta st =
     (let st1 = (if truthy state
                 then state_reducer st
                        \<lparr>sa_type = SET_INITIAL_STATE, sa_stateKey = stateKey,
                         sa_state = state, sa_meta = JUndefined\<rparr>
                 else st)
      in if truthy meta
         then state_reducer st1
                \<lparr>sa_type = SET_INITIAL_META, sa_stateKey = stateKey,
                 sa_state = JUndefined, sa_meta = meta\<rparr>
         else st1)"

text \<open>
  \<open>useEffect(effect, deps)\<close>, as React runs it: the effect runs after the first render
  of the component, and after a later render when some dependency is not
  \<open>Object.is\<close>-equal to the dependency at the same position of the previous render.
  The hook's memory is the dependency list of the previous render (\<open>None\<close> before the
  first one).
\<close>

definition useEffect_fires :: "jsread list option \<Rightarrow> jsread list \<Rightarrow> bool" where
  "useEffect_fires prev deps =
     (case prev of
        None \<Rightarrow> True
      | Some old \<Rightarrow> \<not> list_all (\<lambda>(a, b). read_is a b) (zip old deps))"

text \<open>
  The memory of the effect that \<open>setInitialState\<close> registers for one mounted field, with
  a count of the times the effect has run.
\<close>

record SeedEffect =
  lastDeps :: "jsread list option"
  runs :: nat

definition unmounted :: SeedEffect where
  "unmounted = \<lparr>lastDeps = None, runs = 0\<rparr>"

text \<open>
  \<open>setInitialState(stateKey, cb)\<close>, called during a render of the field: registers the
  effect \<open>cb(setter)\<close> with the dependency list \<open>[formState.formState[stateKey]]\<close>. The
  callback receives the setter and the model returns the store after the effects of the
  render have run.
\<close>

definition setInitialState ::
  "string \<Rightarrow> ((string \<Rightarrow> jsval \<Rightarrow> jsval \<Rightarrow> FormState \<Rightarrow> FormState) \<Rightarrow> FormState \<Rightarrow> FormState)
     \<Rightarrow> FormState \<times> SeedEffect \<Rightarrow> FormState \<times> SeedEffect" where
  "setInitialState stateKey cb s =
     (let st = fst s; eff = snd s;
          deps = [js_read (formState st) stateKey]
      in if useEffect_fires (lastDeps eff) deps
         then (cb initialSetter st, \<lparr>lastDeps = Some deps, runs = runs eff + 1\<rparr>)
         else (st, \<lparr>lastDeps = Some deps, runs = runs eff\<rparr>))"

section \<open>The field binding (\<open>context\<close>: \<open>wrapComponent\<close>)\<close>

record ComponentProps =
  stateKey :: string
  initialStateKey :: string

text \<open>
  A \<open>SetInitialState\<close> function takes the \<open>initialStateKey\<close> and the initial state of the
  form and returns \<open>{ initialState, initialMeta }\<close>, here a pair of values. It is a
  parameter of the binding: any projector whose results are plain data.
\<close>

type_synonym SetInitialState = "string \<Rightarrow> jsobject \<Rightarrow> jsval \<times> jsval"

text \<open>
  One render of a wrapped field, up to the call of \<open>setInitialState\<close>. The argument
  \<open>setInitialStateCallback\<close> is \<open>None\<close> when it is not a function (\<open>false\<close> in the README's
  button); a string prop is falsy when it is empty. \<open>initial\<close> is
  \<open>formContext.initialState\<close>.
\<close>

definition wrapComponent ::
  "SetInitialState option \<Rightarrow> jsobject \<Rightarrow> ComponentProps
     \<Rightarrow> FormState \<times> SeedEffect \<Rightarrow> FormState \<times> SeedEffect" where
  "wrapComponent setInitialStateCallback initial props s =
     (case setInitialStateCallback of
        None \<Rightarrow> s
      | Some callback \<Rightarrow>
          if initialStateKey props \<noteq> [] \<and> stateKey props \<noteq> []
          then setInitialState (stateKey props)
                 (\<lambda>setter.
                    let state = callback (initialStateKey props) initial
                    in setter (stateKey props) (fst state) (snd state))
                 s
          else s)"

text \<open>
  The life of one mounted field: it renders, and the wrapped component calls the
  \<open>setFormState\<close> and \<open>removeFormState\<close> props, which \<open>wrapComponent\<close> binds to the
  field's own \<open>stateKey\<close>. A render stands for the render and the effects that follow it.
\<close>

datatype field_event = Render | SetState jsval jsval | RemoveState

fun field_step ::
  "SetInitialState option \<Rightarrow> jsobject \<Rightarrow> ComponentProps \<Rightarrow> field_event
     \<Rightarrow> FormState \<times> SeedEffect \<Rightarrow> FormState \<times> SeedEffect" where
  "field_step callback initial props Render s = wrapComponent callback initial props s"
| "field_step callback initial props (SetState state meta) s =
     (setFormState (stateKey props) state meta (fst s), snd s)"
| "field_step callback initial props RemoveState s =
     (removeFormState (stateKey props) (fst s), snd s)"

definition field_run ::
  "SetInitialState option \<Rightarrow> jsobject \<Rightarrow> ComponentProps \<Rightarrow> field_event list
     \<Rightarrow> FormState \<times> SeedEffect" where
  "field_run callback initial props events =
     fold (field_step callback initial props) events (state_initialState, unmounted)"

text \<open>
  The projector of the examples. The default projector returns
  \<open>initialState[initialStateKey]\<close> for the state and for the meta; this one returns the
  own property, which is the same value whenever the initial state has the key, and
  \<open>undefined\<close> otherwise.
\<close>

definition own_projector :: SetInitialState where
  "own_projector key initial =
     (case js_get initial key of Some v \<Rightarrow> (v, v) | None \<Rightarrow> (JUndefined, JUndefined))"

section \<open>The required registry (\<open>use-required.ts\<close>)\<close>

datatype error = TypeError

text \<open>
  A handler receives what \<open>getComponentState\<close> and \<open>getComponentError\<close> return for the
  key.
\<close>

record RequiredHandler =
  displayMessage :: string
  isRequired :: "jsread \<Rightarrow> jsobject lookup \<Rightarrow> bool"

text \<open>
  The handler object a field passes to \<open>setRequired\<close>; either property may be left out
  (\<open>{}\<close> leaves out both).
\<close>

record RequiredOptions =
  opt_displayMessage :: "string option"
  opt_isRequired :: "(jsread \<Rightarrow> jsobject lookup \<Rightarrow> bool) option"

record RequiredAction =
  ra_type :: string
  ra_stateKey :: string
  ra_required :: RequiredOptions

definition REQUIRED_ADD :: string where
  "REQUIRED_ADD = ''FORM_REQUIRED.ADD''"

text \<open>
  \<open>{ isRequired: (state) => !state, displayMessage: `${stateKey} Missing and Required`,
  ...action.required }\<close>.
\<close>

definition required_entry :: "string \<Rightarrow> RequiredOptions \<Rightarrow> RequiredHandler" where
  "required_entry key opts =
     \<lparr>displayMessage =
        (case opt_displayMessage opts of
           None \<Rightarrow> key @ '' Missing and Required'' | Some message \<Rightarrow> message),
      isRequired =
        (case opt_isRequired opts of
           None \<Rightarrow> (\<lambda>state error. \<not> truthy_read state) | Some handler \<Rightarrow> handler)\<rparr>"

definition required_reducer ::
  "(string \<times> RequiredHandler) list \<Rightarrow> RequiredAction \<Rightarrow> (string \<times> RequiredHandler) list" where
  "required_reducer state action =
     (if ra_type action = REQUIRED_ADD
      then js_set (ra_stateKey action)
             (required_entry (ra_stateKey action) (ra_required action)) state
      else state)"

definition required_initialState :: "(string \<times> RequiredHandler) list" where
  "required_initialState = []"

text \<open>The dispatch of \<open>setRequired\<close>'s effect.\<close>

definition setRequired ::
  "string \<Rightarrow> RequiredOptions \<Rightarrow> (string \<times> RequiredHandler) list
     \<Rightarrow> (string \<times> RequiredHandler) list" where
  "setRequired key opts requiredComponents =
     required_reducer requiredComponents
       \<lparr>ra_type = REQUIRED_ADD, ra_stateKey = key, ra_required = opts\<rparr>"

record RequiredElementMessage =
  rm_displayMessage :: string
  rm_isMissing :: bool

text \<open>
  The object that \<open>getFormRequired\<close> builds by assignments \<open>result[key] = { ... }\<close> on
  \<open>{}\<close>: its own entries, and the message that an assignment to \<open>__proto__\<close> made its
  prototype (\<open>None\<close>: the prototype is \<open>Object.prototype\<close>).
\<close>

record RequiredElementMessages =
  rms_own :: "(string \<times> RequiredElementMessage) list"
  rms_prototype :: "RequiredElementMessage option"

text \<open>
  \<open>result[key] = message\<close>. A message has the two own properties \<open>displayMessage\<close> and
  \<open>isMissing\<close>, so also under a message as prototype an assignment to \<open>__proto__\<close>
  finds the accessor, and the setter takes the message, an object, as the prototype.
\<close>

definition assign_message ::
  "string \<Rightarrow> RequiredElementMessage \<Rightarrow> RequiredElementMessages \<Rightarrow> RequiredElementMessages" where
  "assign_message key message result =
     (if js_get (rms_own result) key \<noteq> None
      then result\<lparr>rms_own := js_set key message (rms_own result)\<rparr>
      else if key = ''__proto__'' then result\<lparr>rms_prototype := Some message\<rparr>
      else result\<lparr>rms_own := js_set key message (rms_own result)\<rparr>)"

text \<open>
  \<open>useFormRequired(getComponentState, getComponentError)\<close>: the two getters are
  parameters of every function of the hook. In \<open>getFormRequired\<close> the key comes from
  \<open>Object.keys(requiredComponents)\<close>, so \<open>requiredComponents[key]\<close> is the own handler.
\<close>

definition getFormRequired ::
  "(string \<Rightarrow> jsread) \<Rightarrow> (string \<Rightarrow> jsobject lookup) \<Rightarrow> (string \<times> RequiredHandler) list
     \<Rightarrow> RequiredElementMessages" where
  "getFormRequired getState getError requiredComponents =
     fold (\<lambda>key result.
             case js_get requiredComponents key of
               None \<Rightarrow> result
             | Some required \<Rightarrow>
                 assign_message key
                   \<lparr>rm_displayMessage = displayMessage required,
                    rm_isMissing = isRequired required (getState key) (getError key)\<rparr>
                   result)
          (js_keys requiredComponents) \<lparr>rms_own = [], rms_prototype = None\<rparr>"

text \<open>\<open>Object.values(getFormRequired())\<close> are the own entries.\<close>

definition anyMissing ::
  "(string \<Rightarrow> jsread) \<Rightarrow> (string \<Rightarrow> jsobject lookup) \<Rightarrow> (string \<times> RequiredHandler) list
     \<Rightarrow> bool" where
  "anyMissing getState getError requiredComponents =
     fold (\<lambda>required missing. if rm_isMissing required then True else missing)
          (map snd (rms_own (getFormRequired getState getError requiredComponents))) False"

text \<open>
  \<open>isMissing\<close>: \<open>requiredComponents[stateKey]\<close> is read through the prototype. An own
  handler is called. A built-in of \<open>Object.prototype\<close> is truthy and has no
  \<open>isRequired\<close>, so the call raises a \<open>TypeError\<close>.
\<close>

definition isMissing ::
  "(string \<Rightarrow> jsread) \<Rightarrow> (string \<Rightarrow> jsobject lookup) \<Rightarrow> (string \<times> RequiredHandler) list
     \<Rightarrow> string \<Rightarrow> error + bool" where
  "isMissing getState getError requiredComponents key =
     (case js_lookup requiredComponents key of
        Own required \<Rightarrow> Inr (isRequired required (getState key) (getError key))
      | Inherited name \<Rightarrow> Inl TypeError
      | Undefined \<Rightarrow> Inr False)"

definition getComponentRequired ::
  "(string \<times> RequiredHandler) list \<Rightarrow> string \<Rightarrow> RequiredHandler lookup" where
  "getComponentRequired requiredComponents key = js_lookup requiredComponents key"

section \<open>The error store (\<open>use-error.ts\<close>)\<close>

text \<open>
  \<open>FormErrors\<close> maps a state key to a \<open>ComponentError\<close>, which \<open>interfaces.ts\<close> types as
  an object \<open>{ [key: string]: any }\<close>; an entry is the list of the own properties of the
  object that the reducer creates. The action's \<open>error\<close> is optional.
\<close>

record ErrorAction =
  ea_type :: string
  ea_stateKey :: string
  ea_error :: "jsobject option"

definition ERROR_ADD :: string where
  "ERROR_ADD = ''FORM_ERRORS.ADD''"

definition ERROR_REMOVE :: string where
  "ERROR_REMOVE = ''FORM_ERRORS.REMOVE''"

text \<open>\<open>!!state[key]\<close> on a mapping of objects: an own entry and a built-in are truthy.\<close>

fun present :: "'v lookup \<Rightarrow> bool" where
  "present (Own v) = True"
| "present (Inherited name) = True"
| "present Undefined = False"

definition error_reducer ::
  "(string \<times> jsobject) list \<Rightarrow> ErrorAction \<Rightarrow> (string \<times> jsobject) list" where
  "error_reducer state action =
     (if ea_type action = ERROR_ADD then
        js_set (ea_stateKey action)
          (js_spread [(''displayError'', JStr (ea_stateKey action @ '' Error''))]
             (case ea_error action of None \<Rightarrow> [] | Some error \<Rightarrow> error))
          state
      else if ea_type action = ERROR_REMOVE then
        (if present (js_lookup state (ea_stateKey action))
         then js_delete (ea_stateKey action) state
         else state)
      else state)"

definition error_initialState :: "(string \<times> jsobject) list" where
  "error_initialState = []"

definition getComponentError :: "(string \<times> jsobject) list \<Rightarrow> string \<Rightarrow> jsobject lookup" where
  "getComponentError formErrors key = js_lookup formErrors key"

definition getFormErrors :: "(string \<times> jsobject) list \<Rightarrow> (string \<times> jsobject) list" where
  "getFormErrors formErrors = formErrors"

definition setFormError ::
  "string \<Rightarrow> jsobject \<Rightarrow> (string \<times> jsobject) list \<Rightarrow> (string \<times> jsobject) list" where
  "setFormError key error formErrors =
     error_reducer formErrors \<lparr>ea_type = ERROR_ADD, ea_stateKey = key, ea_error = Some error\<rparr>"

definition removeFormError ::
  "string \<Rightarrow> (string \<times> jsobject) list \<Rightarrow> (string \<times> jsobject) list" where
  "removeFormError key formErrors =
     error_reducer formErrors \<lparr>ea_type = ERROR_REMOVE, ea_stateKey = key, ea_error = None\<rparr>"

section \<open>The loading store and the mounting flag (\<open>use-loading.ts\<close>, \<open>use-mounting.ts\<close>)\<close>

record LoadingAction =
  la_type :: string
  la_stateKey :: string

definition LOADING_ADD :: string where
  "LOADING_ADD = ''FORM_LOADING.ADD''"

definition LOADING_REMOVE :: string where
  "LOADING_REMOVE = ''FORM_LOADING.REMOVE''"

text \<open>The truthiness of \<open>state[key]\<close> on the mapping of flags.\<close>

fun flag :: "bool lookup \<Rightarrow> bool" where
  "flag (Own b) = b"
| "flag (Inherited name) = True"
| "flag Undefined = False"

definition loading_reducer :: "(string \<times> bool) list \<Rightarrow> LoadingAction \<Rightarrow> (string \<times> bool) list" where
  "loading_reducer state action =
     (if la_type action = LOADING_ADD then js_set (la_stateKey action) True state
      else if la_type action = LOADING_REMOVE then
        (if flag (js_lookup state (la_stateKey action))
         then js_delete (la_stateKey action) state
         else state)
      else state)"

definition loading_initialState :: "(string \<times> bool) list" where
  "loading_initialState = []"

definition enableLoading :: "string \<Rightarrow> (string \<times> bool) list \<Rightarrow> (string \<times> bool) list" where
  "enableLoading key loadingComponents =
     loading_reducer loadingComponents \<lparr>la_type = LOADING_ADD, la_stateKey = key\<rparr>"

definition disableLoading :: "string \<Rightarrow> (string \<times> bool) list \<Rightarrow> (string \<times> bool) list" where
  "disableLoading key loadingComponents =
     loading_reducer loadingComponents \<lparr>la_type = LOADING_REMOVE, la_stateKey = key\<rparr>"

text \<open>\<open>isLoading: (stateKey) => !!loadingComponents[stateKey]\<close>.\<close>

definition isLoading :: "(string \<times> bool) list \<Rightarrow> string \<Rightarrow> bool" where
  "isLoading loadingComponents key = flag (js_lookup loadingComponents key)"

text \<open>\<open>formLoading: () => Object.keys(loadingComponents).length > 0\<close>.\<close>

definition formLoading :: "(string \<times> bool) list \<Rightarrow> bool" where
  "formLoading loadingComponents = (length (js_keys loadingComponents) > 0)"

text \<open>
  \<open>useFormMounting\<close>: the flag starts as \<open>useState(true)\<close>; the effect, whose dependency
  list is constant, runs once after the first render and calls \<open>toggleMounting(false)\<close>.
\<close>

definition mounting_initialState :: bool where
  "mounting_initialState = True"

definition toggleMounting_effect :: "bool \<Rightarrow> bool" where
  "toggleMounting_effect mounting = False"

section \<open>The \<open>Form\<close> component (\<open>onButtonClick\<close>)\<close>

text \<open>
  The props of \<open>Form\<close> that \<open>onButtonClick\<close> reads. \<open>p_onButtonClick\<close> says whether a
  handler is passed; the handler receives the event, which is what the model returns.
\<close>

record FormProps =
  p_initialState :: "jsobject option"
  p_onButtonClick :: bool
  p_loading :: "bool option"

text \<open>\<open>Form.defaultProps = { initialState: {}, loading: false }\<close> fills props left out.\<close>

definition defaultProps :: "FormProps \<Rightarrow> FormProps" where
  "defaultProps props =
     props\<lparr>p_initialState := (case p_initialState props of None \<Rightarrow> Some [] | Some i \<Rightarrow> Some i),
           p_loading := (case p_loading props of None \<Rightarrow> Some False | Some l \<Rightarrow> Some l)\<rparr>"

text \<open>The state of the hooks of one \<open>Form\<close>.\<close>

record Form =
  f_state :: FormState
  f_errors :: "(string \<times> jsobject) list"
  f_loading :: "(string \<times> bool) list"
  f_mounting :: bool
  f_required :: "(string \<times> RequiredHandler) list"

text \<open>
  \<open>FormEvent\<close>. Its \<open>state\<close> is \<open>{ ...formState.formState, formLoading, formMounting,
  initialState }\<close>: the store's record, extended. \<open>ButtonData\<close> is an object type.
\<close>

record FormEventState = FormState +
  ev_formLoading :: bool
  ev_formMounting :: bool
  ev_initialState :: jsobject

record FormEvent =
  ev_id :: string
  ev_type :: string
  ev_state :: FormEventState
  ev_formErrors :: "(string \<times> jsobject) list"
  ev_buttonData :: jsobject
  ev_required :: RequiredElementMessages
  ev_anyMissing :: bool

text \<open>\<open>const loading = formLoading.formLoading() || props.loading\<close>.\<close>

definition loading :: "FormProps \<Rightarrow> Form \<Rightarrow> bool option" where
  "loading props form = (if formLoading (f_loading form) then Some True else p_loading props)"

text \<open>
  \<open>onButtonClick(buttonID = 'submit', buttonData = {})\<close>: an argument left out
  (\<open>None\<close>) takes its default. Without a handler in the props nothing is produced.
\<close>

definition onButtonClick ::
  "FormProps \<Rightarrow> Form \<Rightarrow> string option \<Rightarrow> jsobject option \<Rightarrow> FormEvent option" where
  "onButtonClick props form buttonID buttonData =
     (if p_onButtonClick props then
        Some
          \<lparr>ev_id = (case buttonID of None \<Rightarrow> ''submit'' | Some b \<Rightarrow> b),
           ev_type = ''buttonClick'',
           ev_state =
             \<lparr>formState = formState (f_state form),
              displayState = displayState (f_state form),
              formMeta = formMeta (f_state form),
              displayMeta = displayMeta (f_state form),
              stateChanged = stateChanged (f_state form),
              ev_formLoading = (case loading props form of None \<Rightarrow> False | Some l \<Rightarrow> l),
              ev_formMounting = f_mounting form,
              ev_initialState = (case p_initialState props of None \<Rightarrow> [] | Some i \<Rightarrow> i)\<rparr>,
           ev_formErrors = f_errors form,
           ev_buttonData = (case buttonData of None \<Rightarrow> [] | Some d \<Rightarrow> d),
           ev_required =
             getFormRequired (getComponentState (f_state form)) (getComponentError (f_errors form))
               (f_required form),
           ev_anyMissing =
             anyMissing (getComponentState (f_state form)) (getComponentError (f_errors form))
               (f_required form)\<rparr>
      else None)"

section \<open>The invariant of the data model\<close>

text \<open>
  Every own key of \<open>a\<close> is an own key of \<open>b\<close> with the same value: the invariant of the
  data model, for the state pair and for the meta pair.
\<close>

definition same_valued_subset :: "jsobject \<Rightarrow> jsobject \<Rightarrow> bool" where
  "same_valued_subset a b = list_all (\<lambda>key. js_get b key = js_get a key) (js_keys a)"

definition store_invariant :: "FormState \<Rightarrow> bool" where
  "store_invariant st =
     (same_valued_subset (own (formState st)) (own (displayState st)) \<and>
      same_valued_subset (own (formMeta st)) (own (displayMeta st)))"

section \<open>Basic facts about own properties\<close>

lemma js_get_Nil: "js_get [] j = None"
  by (simp add: js_get_def)

lemma js_get_Cons: "js_get ((a, b) # obj) f = (if f = a then Some b else js_get obj f)"
  by (simp add: js_get_def)

lemma js_get_set: "js_get (js_set key v obj) j = (if j = key then Some v else js_get obj j)"
  by (simp add: js_get_def js_set_def update_conv')

lemma js_keys_set: "set (js_keys (js_set key v obj)) = insert key (set (js_keys obj))"
  using dom_update [of key v obj] by (simp add: js_keys_def js_set_def)

lemma js_object_set: "js_object obj \<Longrightarrow> js_object (js_set key v obj)"
  by (simp add: js_object_def js_keys_def js_set_def distinct_update)

lemma js_set_idem: "js_set key v (js_set key w obj) = js_set key v obj"
  by (simp add: js_set_def)

lemma js_get_None_iff: "js_get obj key = None \<longleftrightarrow> key \<notin> set (js_keys obj)"
  by (simp add: js_get_def js_keys_def map_of_eq_None_iff)

lemma js_get_keys: "js_get obj j = Some v \<Longrightarrow> j \<in> set (js_keys obj)"
  using js_get_None_iff [of obj j] by auto

lemma js_get_present: "j \<in> set (js_keys obj) \<Longrightarrow> \<exists>v. js_get obj j = Some v"
  using js_get_None_iff [of obj j] by (cases "js_get obj j") auto

lemma js_set_same: "js_get obj key = Some v \<Longrightarrow> js_set key v obj = obj"
  by (simp add: js_get_def js_set_def update_triv)

lemma js_set_fresh: "key \<notin> set (js_keys obj) \<Longrightarrow> js_set key v obj = obj @ [(key, v)]"
  unfolding js_set_def js_keys_def by (induction obj) auto

lemma js_extend_idem: "js_extend key v (js_extend key w m) = js_extend key v m"
  by (simp add: js_extend_def js_set_idem)

section \<open>Assignment\<close>

lemma own_set_prototype: "own (set_prototype v m) = own m"
  by (cases v) simp_all

text \<open>An assignment changes no own property under another key.\<close>

lemma js_assign_other:
  "j \<noteq> key \<Longrightarrow> js_get (own (js_assign key v m)) j = js_get (own m) j"
  by (simp add: js_assign_def js_get_set own_set_prototype)

text \<open>Under any key but \<open>__proto__\<close> an assignment stores the value as an own property.\<close>

lemma js_assign_same:
  "key \<noteq> ''__proto__'' \<Longrightarrow> js_get (own (js_assign key v m)) key = Some v"
  by (simp add: js_assign_def js_get_set)

lemma js_assign_fixed:
  "js_get (own m) key = Some v \<Longrightarrow> js_assign key v m = m"
  by (simp add: js_assign_def js_set_same)

section \<open>The two \<open>reduce\<close> calls of a removal\<close>

lemma remove_step_other:
  "j \<noteq> key \<Longrightarrow> js_get (own (remove_step k src key obj)) j = js_get (own obj) j"
  by (simp add: remove_step_def js_assign_other split: option.splits)

lemma remove_step_same:
  "key \<noteq> ''__proto__'' \<Longrightarrow>
   js_get (own (remove_step k src key obj)) key =
     (if key \<noteq> k \<and> js_get (own src) key \<noteq> None then js_get (own src) key
      else js_get (own obj) key)"
  by (auto simp: remove_step_def js_assign_same split: option.splits)

lemma remove_step_get:
  "j \<noteq> ''__proto__'' \<Longrightarrow>
   js_get (own (remove_step k src key obj)) j =
     (if j = key \<and> key \<noteq> k \<and> js_get (own src) key \<noteq> None then js_get (own src) key
      else js_get (own obj) j)"
proof (cases "j = key")
  case True
  assume "j \<noteq> ''__proto__''"
  with True have "key \<noteq> ''__proto__''" by simp
  from remove_step_same [OF this, of k src obj] True show ?thesis by auto
next
  case False
  from remove_step_other [OF False, of k src obj] False show ?thesis by simp
qed

lemma remove_fold_get:
  "j \<noteq> ''__proto__'' \<Longrightarrow>
   js_get (own (fold (remove_step k src) keys acc)) j =
     (if j \<noteq> k \<and> j \<in> set keys \<and> js_get (own src) j \<noteq> None then js_get (own src) j
      else js_get (own acc) j)"
  by (induction keys arbitrary: acc) (auto simp: remove_step_get)

text \<open>The removed key is never assigned, under whatever name.\<close>

lemma remove_fold_removed:
  "js_get (own (fold (remove_step k src) keys acc)) k = js_get (own acc) k"
proof (induction keys arbitrary: acc)
  case Nil
  then show ?case by simp
next
  case (Cons key keys)
  have "js_get (own (remove_step k src key acc)) k = js_get (own acc) k"
  proof (cases "key = k")
    case True
    then show ?thesis by (simp add: remove_step_def)
  next
    case False
    then have "k \<noteq> key" by simp
    then show ?thesis by (rule remove_step_other)
  qed
  with Cons show ?case by simp
qed

lemma rebuild_removed: "js_get (own (rebuild k src)) k = None"
  by (simp add: rebuild_def remove_reduce_def remove_fold_removed empty_map_def js_get_Nil)

lemma remove_reduce_get:
  "j \<noteq> ''__proto__'' \<Longrightarrow>
   js_get (own (remove_reduce k src acc)) j =
     (if j \<noteq> k \<and> js_get (own src) j \<noteq> None then js_get (own src) j
      else js_get (own acc) j)"
  using js_get_None_iff [of "own src" j] by (simp add: remove_reduce_def remove_fold_get)

lemma rebuild_get:
  "j \<noteq> ''__proto__'' \<Longrightarrow>
   js_get (own (rebuild k src)) j = (if j = k then None else js_get (own src) j)"
proof (cases "j = k")
  case True
  then show ?thesis by (simp add: rebuild_removed)
next
  case False
  assume "j \<noteq> ''__proto__''"
  with False show ?thesis
    by (cases "js_get (own src) j")
       (simp_all add: rebuild_def remove_reduce_get empty_map_def js_get_Nil)
qed

text \<open>
  Without an own key \<open>__proto__\<close> in the source no assignment reaches the setter: the
  second \<open>reduce\<close> changes nothing, and the rebuilt mapping is the source without the
  removed key, in the old order, under \<open>Object.prototype\<close>.
\<close>

lemma js_assign_plain:
  "key \<noteq> ''__proto__'' \<Longrightarrow> js_assign key v m = m\<lparr>own := js_set key v (own m)\<rparr>"
  by (simp add: js_assign_def)

lemma remove_fold_filter:
  "distinct (map fst (own acc @ xs)) \<Longrightarrow> \<forall>p \<in> set xs. js_get (own src) (fst p) = Some (snd p) \<Longrightarrow>
   ''__proto__'' \<notin> fst ` set xs \<Longrightarrow>
   fold (remove_step k src) (map fst xs) acc
     = acc\<lparr>own := own acc @ filter (\<lambda>p. fst p \<noteq> k) xs\<rparr>"
proof (induction xs arbitrary: acc)
  case Nil
  then show ?case by simp
next
  case (Cons p xs)
  obtain a b where p: "p = (a, b)" by (cases p)
  show ?case
  proof (cases "a = k")
    case True
    have "distinct (map fst (own acc @ xs))" using Cons.prems(1) by (simp add: p)
    with Cons show ?thesis using True by (simp add: p remove_step_def)
  next
    case False
    have fresh: "a \<notin> set (js_keys (own acc))" using Cons.prems(1) by (auto simp: p js_keys_def)
    have np: "a \<noteq> ''__proto__''" using Cons.prems(3) by (auto simp: p)
    have step: "remove_step k src a acc = acc\<lparr>own := own acc @ [(a, b)]\<rparr>"
      using False fresh np Cons.prems(2)
      by (simp add: p remove_step_def js_assign_plain js_set_fresh)
    have d: "distinct (map fst (own (acc\<lparr>own := own acc @ [(a, b)]\<rparr>) @ xs))"
      using Cons.prems(1) by (simp add: p)
    have "fold (remove_step k src) (map fst xs) (acc\<lparr>own := own acc @ [(a, b)]\<rparr>)
            = (acc\<lparr>own := own acc @ [(a, b)]\<rparr>)
                \<lparr>own := own (acc\<lparr>own := own acc @ [(a, b)]\<rparr>) @ filter (\<lambda>p. fst p \<noteq> k) xs\<rparr>"
      using Cons.IH [OF d] Cons.prems(2,3) by simp
    then show ?thesis using False step by (simp add: p)
  qed
qed

lemma js_get_distinct: "js_object obj \<Longrightarrow> p \<in> set obj \<Longrightarrow> js_get obj (fst p) = Some (snd p)"
  by (cases p) (simp add: js_get_def js_object_def js_keys_def)

lemma remove_reduce_delete:
  assumes "js_object (own src)" and "js_get (own src) ''__proto__'' = None"
  shows "remove_reduce k src empty_map = \<lparr>own = js_delete k (own src), prototype = ObjectPrototype\<rparr>"
proof -
  have d: "distinct (map fst (own empty_map @ own src))"
    using assms(1) by (simp add: js_object_def js_keys_def empty_map_def)
  have np: "''__proto__'' \<notin> fst ` set (own src)"
    using assms(2) js_get_None_iff [of "own src" "''__proto__''"] by (simp add: js_keys_def)
  have "fold (remove_step k src) (map fst (own src)) empty_map
          = empty_map\<lparr>own := own empty_map @ filter (\<lambda>p. fst p \<noteq> k) (own src)\<rparr>"
    by (rule remove_fold_filter [OF d _ np]) (use assms(1) in \<open>auto simp: js_get_distinct\<close>)
  moreover have "filter (\<lambda>p. fst p \<noteq> k) xs = AList.delete k xs" for xs :: jsobject
    by (induction xs) (auto simp: AList.delete_eq)
  ultimately show ?thesis by (simp add: remove_reduce_def js_keys_def js_delete_def empty_map_def)
qed

lemma remove_fold_fixed:
  "\<forall>j \<in> set keys. j \<noteq> k \<longrightarrow> js_get (own src) j \<noteq> None \<longrightarrow> js_get (own acc) j = js_get (own src) j \<Longrightarrow>
   fold (remove_step k src) keys acc = acc"
  by (induction keys arbitrary: acc)
     (auto simp: remove_step_def js_assign_fixed split: option.splits)

lemma rebuild_delete:
  assumes "js_object (own src)" and "js_get (own src) ''__proto__'' = None"
  shows "rebuild k src = \<lparr>own = js_delete k (own src), prototype = ObjectPrototype\<rparr>"
proof -
  let ?fs = "remove_reduce k src empty_map"
  have "remove_reduce k src ?fs = ?fs"
    unfolding remove_reduce_def [of k src ?fs]
  proof (rule remove_fold_fixed, intro ballI impI)
    fix j assume "j \<in> set (js_keys (own src))" "j \<noteq> k" "js_get (own src) j \<noteq> None"
    moreover from this assms(2) have "j \<noteq> ''__proto__''" by auto
    ultimately show "js_get (own ?fs) j = js_get (own src) j"
      by (simp add: remove_reduce_get)
  qed
  then show ?thesis using remove_reduce_delete [OF assms] by (simp add: rebuild_def)
qed

section \<open>The reducer, case by case\<close>

lemmas action_names =
  SET_INITIAL_STATE_def SET_INITIAL_META_def SET_FORM_STATE_def SET_FORM_META_def
  REMOVE_FORM_STATE_def REMOVE_FORM_META_def

lemma reducer_SET_INITIAL_STATE:
  "state_reducer st \<lparr>sa_type = SET_INITIAL_STATE, sa_stateKey = k, sa_state = v, sa_meta = m\<rparr>
     = st\<lparr>displayState := js_extend k v (displayState st), stateChanged := False\<rparr>"
  by (simp add: state_reducer_def)

lemma reducer_SET_INITIAL_META:
  "state_reducer st \<lparr>sa_type = SET_INITIAL_META, sa_stateKey = k, sa_state = v, sa_meta = m\<rparr>
     = st\<lparr>displayMeta := js_extend k m (displayMeta st), stateChanged := False\<rparr>"
  by (simp add: state_reducer_def action_names)

lemma reducer_SET_FORM_STATE:
  "state_reducer st \<lparr>sa_type = SET_FORM_STATE, sa_stateKey = k, sa_state = v, sa_meta = m\<rparr>
     = st\<lparr>formState := js_extend k v (formState st),
           displayState := js_extend k v (displayState st), stateChanged := True\<rparr>"
  by (simp add: state_reducer_def action_names)

lemma reducer_SET_FORM_META:
  "state_reducer st \<lparr>sa_type = SET_FORM_META, sa_stateKey = k, sa_state = v, sa_meta = m\<rparr>
     = st\<lparr>formMeta := js_extend k m (formMeta st),
           displayMeta := js_extend k m (displayMeta st), stateChanged := True\<rparr>"
  by (simp add: state_reducer_def action_names)

lemma reducer_REMOVE_FORM_STATE:
  "state_reducer st \<lparr>sa_type = REMOVE_FORM_STATE, sa_stateKey = k, sa_state = v, sa_meta = m\<rparr>
     = st\<lparr>formState := rebuild k (displayState st),
           displayState := rebuild k (displayState st), stateChanged := True\<rparr>"
  by (simp add: state_reducer_def action_names rebuild_def Let_def)

lemma reducer_REMOVE_FORM_META:
  "state_reducer st \<lparr>sa_type = REMOVE_FORM_META, sa_stateKey = k, sa_state = v, sa_meta = m\<rparr>
     = st\<lparr>formMeta := rebuild k (displayMeta st),
           displayMeta := rebuild k (displayMeta st), stateChanged := True\<rparr>"
  by (simp add: state_reducer_def action_names rebuild_def Let_def)

lemmas reducer_cases =
  reducer_SET_INITIAL_STATE reducer_SET_INITIAL_META reducer_SET_FORM_STATE
  reducer_SET_FORM_META reducer_REMOVE_FORM_STATE reducer_REMOVE_FORM_META

text \<open>What the three writers of the store do, as one record each.\<close>

lemma removeFormState_eq:
  "removeFormState k st =
     \<lparr>formState = rebuild k (displayState st),
      displayState = rebuild k (displayState st),
      formMeta = rebuild k (displayMeta st),
      displayMeta = rebuild k (displayMeta st),
      stateChanged = True\<rparr>"
  by (simp add: removeFormState_def reducer_cases)

lemma setFormState_eq:
  "setFormState k s m st =
     \<lparr>formState = (if truthy s then js_extend k s (formState st) else formState st),
      displayState = (if truthy s then js_extend k s (displayState st) else displayState st),
      formMeta = (if truthy m then js_extend k m (formMeta st) else formMeta st),
      displayMeta = (if truthy m then js_extend k m (displayMeta st) else displayMeta st),
      stateChanged = (truthy s \<or> truthy m \<or> stateChanged st)\<rparr>"
  by (simp add: setFormState_def reducer_cases)

lemma initialSetter_eq:
  "initialSetter k s m st =
     \<lparr>formState = formState st,
      displayState = (if truthy s then js_extend k s (displayState st) else displayState st),
      formMeta = formMeta st,
      displayMeta = (if truthy m then js_extend k m (displayMeta st) else displayMeta st),
      stateChanged = (\<not> truthy s \<and> \<not> truthy m \<and> stateChanged st)\<rparr>"
  by (simp add: initialSetter_def reducer_cases)

lemma js_get_extend:
  "js_get (own (js_extend key v m)) j = (if j = key then Some v else js_get (own m) j)"
  by (simp add: js_extend_def js_get_set)

text \<open>
  On a store of objects without an own key \<open>__proto__\<close> a removal is a deletion of the
  key from the display mappings.
\<close>

lemma removeFormState_delete:
  "js_object (own (displayState st)) \<Longrightarrow> js_get (own (displayState st)) ''__proto__'' = None \<Longrightarrow>
   js_object (own (displayMeta st)) \<Longrightarrow> js_get (own (displayMeta st)) ''__proto__'' = None \<Longrightarrow>
   removeFormState k st =
     \<lparr>formState = \<lparr>own = js_delete k (own (displayState st)), prototype = ObjectPrototype\<rparr>,
      displayState = \<lparr>own = js_delete k (own (displayState st)), prototype = ObjectPrototype\<rparr>,
      formMeta = \<lparr>own = js_delete k (own (displayMeta st)), prototype = ObjectPrototype\<rparr>,
      displayMeta = \<lparr>own = js_delete k (own (displayMeta st)), prototype = ObjectPrototype\<rparr>,
      stateChanged = True\<rparr>"
  by (simp add: removeFormState_eq rebuild_delete)

section \<open>Removal (\<open>removeFormState\<close>)\<close>

text \<open>
  Claim C1, as the code has it. \<open>removeFormState k\<close> leaves \<open>k\<close> absent from both
  \<open>formState\<close> and \<open>displayState\<close>. For every other key \<open>j\<close> that is not \<open>__proto__\<close>,
  \<open>displayState[j]\<close> is unchanged and \<open>formState[j]\<close> becomes the prior \<open>displayState[j]\<close>;
  so \<open>formState[j]\<close> is unchanged when it agreed with \<open>displayState[j]\<close> before the call.
\<close>

theorem removeFormState_completeness:
  "js_get (own (formState (removeFormState k st))) k = None \<and>
   js_get (own (displayState (removeFormState k st))) k = None \<and>
   (\<forall>j. j \<noteq> k \<and> j \<noteq> ''__proto__'' \<longrightarrow>
      js_get (own (displayState (removeFormState k st))) j = js_get (own (displayState st)) j \<and>
      js_get (own (formState (removeFormState k st))) j = js_get (own (displayState st)) j \<and>
      (js_get (own (formState st)) j = js_get (own (displayState st)) j \<longrightarrow>
         js_get (own (formState (removeFormState k st))) j = js_get (own (formState st)) j))"
  by (simp add: removeFormState_eq rebuild_get rebuild_removed)

text \<open>
  An instance: after \<open>setFormState "b" "v"\<close> the two mappings agree at \<open>b\<close>, and removing
  \<open>a\<close> keeps \<open>b\<close> in both.
\<close>

theorem removeFormState_completeness_witness:
  "''b'' \<noteq> ''a'' \<and> ''b'' \<noteq> ''__proto__'' \<and>
   js_get (own (formState (setFormState ''b'' (JStr ''v'') JUndefined state_initialState))) ''b''
     = js_get (own (displayState (setFormState ''b'' (JStr ''v'') JUndefined state_initialState)))
         ''b'' \<and>
   js_get (own (formState
      (removeFormState ''a'' (setFormState ''b'' (JStr ''v'') JUndefined state_initialState))))
      ''b'' = Some (JStr ''v'') \<and>
   js_get (own (displayState
      (removeFormState ''a'' (setFormState ''b'' (JStr ''v'') JUndefined state_initialState))))
      ''b'' = Some (JStr ''v'')"
  using removeFormState_completeness
          [of "''a''" "setFormState ''b'' (JStr ''v'') JUndefined state_initialState"]
  by (simp add: setFormState_eq state_initialState_def js_get_extend)

text \<open>
  Claim C1 as stated says that \<open>formState[j]\<close> is unchanged for every prior store. A
  field \<open>b\<close> that was seeded and never edited is not in \<open>formState\<close>; removing another
  field \<open>a\<close> puts it there.
\<close>

theorem removeFormState_changes_seeded_key:
  "''b'' \<noteq> ''a'' \<and>
   js_get (own (formState (initialSetter ''b'' (JStr ''v'') JUndefined state_initialState))) ''b''
     = None \<and>
   js_get (own (formState
      (removeFormState ''a'' (initialSetter ''b'' (JStr ''v'') JUndefined state_initialState))))
      ''b'' = Some (JStr ''v'')"
  by (simp add: removeFormState_eq rebuild_get initialSetter_eq state_initialState_def
        js_get_extend empty_map_def js_get_Nil)

text \<open>
  Claim C9. \<open>removeFormState k\<close> sets \<open>stateChanged\<close> to true, whatever the prior store
  is, also when \<open>k\<close> was in neither mapping.
\<close>

theorem removeFormState_stateChanged: "stateChanged (removeFormState k st) = True"
  by (simp add: removeFormState_eq)

text \<open>The case of an absent key, on the fresh store.\<close>

lemma removeFormState_absent_key_stateChanged:
  "js_get (own (formState state_initialState)) ''a'' = None \<and>
   js_get (own (displayState state_initialState)) ''a'' = None \<and>
   \<not> stateChanged state_initialState \<and>
   stateChanged (removeFormState ''a'' state_initialState)"
  by (simp add: removeFormState_eq state_initialState_def empty_map_def js_get_Nil)

text \<open>
  After \<open>removeFormState k\<close> the resulting \<open>formState\<close> is the resulting \<open>displayState\<close>,
  one object. Every key of the prior \<open>displayState\<close> except \<open>k\<close> and \<open>__proto__\<close> is in it
  with \<open>displayState\<close>'s value, and apart from \<open>__proto__\<close> it has no other key.
\<close>

lemma removeFormState_form_equals_display:
  "formState (removeFormState k st) = displayState (removeFormState k st) \<and>
   (\<forall>j \<in> set (js_keys (own (displayState st))). j \<noteq> k \<and> j \<noteq> ''__proto__'' \<longrightarrow>
      js_get (own (formState (removeFormState k st))) j = js_get (own (displayState st)) j) \<and>
   (\<forall>j. j \<noteq> ''__proto__'' \<and> js_get (own (formState (removeFormState k st))) j \<noteq> None \<longrightarrow>
      j \<noteq> k \<and> j \<in> set (js_keys (own (displayState st))))"
  by (auto simp: removeFormState_eq rebuild_get js_get_keys split: if_splits)


section \<open>Writing (\<open>setFormState\<close>)\<close>

text \<open>
  Claim C3, as the code has it. The guard of the state half is \<open>!!state\<close>: for every key
  and every truthy state, \<open>setFormState\<close> writes the state into \<open>formState[key]\<close> and
  \<open>displayState[key]\<close> and sets \<open>stateChanged\<close>; for a falsy state (\<open>undefined\<close>, \<open>null\<close>,
  \<open>false\<close>, \<open>0\<close>, \<open>NaN\<close>, \<open>""\<close>) it leaves both mappings as they are.
\<close>

theorem setFormState_writes_truthy:
  "(truthy state \<longrightarrow>
      js_get (own (formState (setFormState k state meta st))) k = Some state \<and>
      js_get (own (displayState (setFormState k state meta st))) k = Some state \<and>
      stateChanged (setFormState k state meta st)) \<and>
   (\<not> truthy state \<longrightarrow>
      formState (setFormState k state meta st) = formState st \<and>
      displayState (setFormState k state meta st) = displayState st)"
  by (simp add: setFormState_eq js_get_extend)

text \<open>An instance of each half: the string \<open>"x"\<close> is written, the empty string is not.\<close>

theorem setFormState_writes_truthy_witness:
  "truthy (JStr ''x'') \<and>
   js_get (own (formState (setFormState ''a'' (JStr ''x'') JUndefined state_initialState))) ''a''
     = Some (JStr ''x'') \<and>
   js_get (own (displayState (setFormState ''a'' (JStr ''x'') JUndefined state_initialState))) ''a''
     = Some (JStr ''x'') \<and>
   stateChanged (setFormState ''a'' (JStr ''x'') JUndefined state_initialState) \<and>
   \<not> truthy (JStr '''') \<and>
   formState (setFormState ''a'' (JStr '''') JUndefined state_initialState) = empty_map"
  using setFormState_writes_truthy [of "JStr ''x''" "''a''" JUndefined state_initialState]
        setFormState_writes_truthy [of "JStr ''''" "''a''" JUndefined state_initialState]
  by (simp add: state_initialState_def)

text \<open>
  Claim C3 as stated includes the defined falsy values. On the fresh store,
  \<open>setFormState "a" 0\<close> writes nothing and leaves \<open>stateChanged\<close> false.
\<close>

theorem setFormState_zero_not_written:
  "js_get (own (formState (setFormState ''a'' (JNum 0) JUndefined state_initialState))) ''a''
     \<noteq> Some (JNum 0) \<and>
   js_get (own (displayState (setFormState ''a'' (JNum 0) JUndefined state_initialState))) ''a''
     \<noteq> Some (JNum 0) \<and>
   \<not> stateChanged (setFormState ''a'' (JNum 0) JUndefined state_initialState)"
  by (simp add: setFormState_eq state_initialState_def empty_map_def js_get_Nil)

text \<open>The same for \<open>false\<close> and the empty string.\<close>

lemma setFormState_false_and_empty_not_written:
  "setFormState ''a'' (JBool False) JUndefined state_initialState = state_initialState \<and>
   setFormState ''a'' (JStr '''') JUndefined state_initialState = state_initialState"
  by (simp add: setFormState_eq state_initialState_def)

text \<open>
  Claim C8. \<open>setFormState k state undefined\<close> leaves \<open>formMeta\<close> and \<open>displayMeta\<close>
  unchanged, and \<open>setFormState k undefined meta\<close> leaves \<open>formState\<close> and \<open>displayState\<close>
  unchanged: the whole mappings, hence their entries at \<open>k\<close>.
\<close>

theorem setFormState_state_meta_independent:
  "formMeta (setFormState k state JUndefined st) = formMeta st \<and>
   displayMeta (setFormState k state JUndefined st) = displayMeta st \<and>
   js_get (own (formMeta (setFormState k state JUndefined st))) k = js_get (own (formMeta st)) k \<and>
   js_get (own (displayMeta (setFormState k state JUndefined st))) k
     = js_get (own (displayMeta st)) k \<and>
   formState (setFormState k JUndefined meta st) = formState st \<and>
   displayState (setFormState k JUndefined meta st) = displayState st \<and>
   js_get (own (formState (setFormState k JUndefined meta st))) k = js_get (own (formState st)) k \<and>
   js_get (own (displayState (setFormState k JUndefined meta st))) k
     = js_get (own (displayState st)) k"
  by (simp add: setFormState_eq)

section \<open>The invariant of the two mappings\<close>

lemma same_valued_subset_iff:
  "same_valued_subset a b \<longleftrightarrow> (\<forall>key v. js_get a key = Some v \<longrightarrow> js_get b key = Some v)"
proof
  assume h: "same_valued_subset a b"
  show "\<forall>key v. js_get a key = Some v \<longrightarrow> js_get b key = Some v"
  proof (intro allI impI)
    fix key v assume g: "js_get a key = Some v"
    then have "key \<in> set (js_keys a)" by (rule js_get_keys)
    with h have "js_get b key = js_get a key"
      by (simp add: same_valued_subset_def list_all_iff)
    with g show "js_get b key = Some v" by simp
  qed
next
  assume h: "\<forall>key v. js_get a key = Some v \<longrightarrow> js_get b key = Some v"
  show "same_valued_subset a b"
    unfolding same_valued_subset_def list_all_iff
  proof
    fix key assume "key \<in> set (js_keys a)"
    then obtain v where "js_get a key = Some v" using js_get_present by blast
    with h show "js_get b key = js_get a key" by simp
  qed
qed

lemma same_valued_subset_refl: "same_valued_subset a a"
  by (simp add: same_valued_subset_iff)

lemma same_valued_subset_set_both:
  "same_valued_subset a b \<Longrightarrow> same_valued_subset (js_set k v a) (js_set k v b)"
  by (simp add: same_valued_subset_iff js_get_set)

lemma same_valued_subset_seed:
  "same_valued_subset a b \<Longrightarrow> js_get a k = None \<Longrightarrow> same_valued_subset a (js_set k v b)"
  by (auto simp: same_valued_subset_iff js_get_set)

lemma store_invariant_initial: "store_invariant state_initialState"
  by (simp add: store_invariant_def state_initialState_def same_valued_subset_def js_keys_def
        empty_map_def)

text \<open>The two committed writers keep the invariant.\<close>

lemma store_invariant_setFormState:
  "store_invariant st \<Longrightarrow> store_invariant (setFormState k s m st)"
  by (simp add: store_invariant_def setFormState_eq js_extend_def same_valued_subset_set_both)

lemma store_invariant_removeFormState: "store_invariant (removeFormState k st)"
  by (simp add: store_invariant_def removeFormState_eq same_valued_subset_refl)

text \<open>So does a seeding of a field that has no committed entry.\<close>

lemma store_invariant_initialSetter:
  "store_invariant st \<Longrightarrow> js_get (own (formState st)) k = None \<Longrightarrow>
   js_get (own (formMeta st)) k = None \<Longrightarrow> store_invariant (initialSetter k s m st)"
  by (simp add: store_invariant_def initialSetter_eq js_extend_def same_valued_subset_seed)

text \<open>
  Claim C2 says that in every reachable store each key of \<open>formState\<close> is in
  \<open>displayState\<close> with the same value. The effect that seeds a field depends on
  \<open>formState.formState[stateKey]\<close>: the field \<open>a\<close> mounts and is seeded with \<open>"init"\<close>, the
  user types \<open>"x"\<close>, and at the next render the effect runs a second time and writes
  \<open>"init"\<close> over \<open>"x"\<close> in the display mappings only. The store then has
  \<open>formState["a"] = "x"\<close> beside \<open>displayState["a"] = "init"\<close>.
\<close>

theorem seeding_after_edit_breaks_invariant:
  "field_run (Some own_projector) [(''a'', JStr ''init'')]
     \<lparr>stateKey = ''a'', initialStateKey = ''a''\<rparr>
     [Render, SetState (JStr ''x'') (JStr ''x''), Render]
   = (\<lparr>formState = \<lparr>own = [(''a'', JStr ''x'')], prototype = ObjectPrototype\<rparr>,
       displayState = \<lparr>own = [(''a'', JStr ''init'')], prototype = ObjectPrototype\<rparr>,
       formMeta = \<lparr>own = [(''a'', JStr ''x'')], prototype = ObjectPrototype\<rparr>,
       displayMeta = \<lparr>own = [(''a'', JStr ''init'')], prototype = ObjectPrototype\<rparr>,
       stateChanged = False\<rparr>,
      \<lparr>lastDeps = Some [Val (JStr ''x'')], runs = 2\<rparr>) \<and>
   \<not> store_invariant
        (fst (field_run (Some own_projector) [(''a'', JStr ''init'')]
                \<lparr>stateKey = ''a'', initialStateKey = ''a''\<rparr>
                [Render, SetState (JStr ''x'') (JStr ''x''), Render]))"
proof -
  have r: "field_run (Some own_projector) [(''a'', JStr ''init'')]
     \<lparr>stateKey = ''a'', initialStateKey = ''a''\<rparr>
     [Render, SetState (JStr ''x'') (JStr ''x''), Render]
   = (\<lparr>formState = \<lparr>own = [(''a'', JStr ''x'')], prototype = ObjectPrototype\<rparr>,
       displayState = \<lparr>own = [(''a'', JStr ''init'')], prototype = ObjectPrototype\<rparr>,
       formMeta = \<lparr>own = [(''a'', JStr ''x'')], prototype = ObjectPrototype\<rparr>,
       displayMeta = \<lparr>own = [(''a'', JStr ''init'')], prototype = ObjectPrototype\<rparr>,
       stateChanged = False\<rparr>,
      \<lparr>lastDeps = Some [Val (JStr ''x'')], runs = 2\<rparr>)"
    by (simp add: field_run_def wrapComponent_def setInitialState_def useEffect_fires_def
          unmounted_def own_projector_def initialSetter_eq setFormState_eq
          state_initialState_def empty_map_def js_read_def from_Object_prototype_def
          object_prototype_methods_def js_extend_def js_get_def js_set_def Let_def)
  show ?thesis
    unfolding r by (simp add: store_invariant_def same_valued_subset_def js_keys_def js_get_def)
qed

section \<open>Seeding (\<open>setInitialState\<close>, \<open>wrapComponent\<close>)\<close>

lemma object_is_refl: "object_is v v"
  by (cases v) simp_all

lemma read_is_refl: "read_is d d"
  by (cases d) (simp_all add: object_is_refl)

lemma useEffect_fires_same: "\<not> useEffect_fires (Some [d]) [d]"
  by (simp add: useEffect_fires_def read_is_refl)

lemma initialSetter_idem:
  "initialSetter k s m (initialSetter k s m st) = initialSetter k s m st"
  by (auto simp: initialSetter_eq js_extend_idem)

lemma initialSetter_stateChanged:
  "\<not> stateChanged st \<Longrightarrow> \<not> stateChanged (initialSetter k s m st)"
  by (simp add: initialSetter_eq)

lemma initialSetter_formState: "formState (initialSetter k s m st) = formState st"
  by (simp add: initialSetter_eq)

text \<open>
  Once the effect has the current dependency in its memory, a render changes neither
  the store nor the memory.
\<close>

lemma setInitialState_mounted:
  "lastDeps (snd s) = Some [js_read (formState (fst s)) k] \<Longrightarrow> setInitialState k cb s = s"
  by (cases s) (simp add: setInitialState_def useEffect_fires_same Let_def)

lemma setInitialState_lastDeps:
  assumes "\<And>st. formState (cb initialSetter st) = formState st"
  shows "lastDeps (snd (setInitialState k cb s))
           = Some [js_read (formState (fst (setInitialState k cb s))) k]"
  using assms by (simp add: setInitialState_def Let_def)

lemma setInitialState_twice:
  assumes "\<And>st. formState (cb initialSetter st) = formState st"
  shows "setInitialState k cb (setInitialState k cb s) = setInitialState k cb s"
proof -
  have "lastDeps (snd (setInitialState k cb s))
          = Some [js_read (formState (fst (setInitialState k cb s))) k]"
    by (rule setInitialState_lastDeps) (rule assms)
  then show ?thesis by (rule setInitialState_mounted)
qed

lemma setInitialState_runs: "runs (snd (setInitialState k cb s)) \<le> Suc (runs (snd s))"
  by (simp add: setInitialState_def Let_def)

lemma wrapComponent_twice:
  "wrapComponent callback initial props (wrapComponent callback initial props s)
     = wrapComponent callback initial props s"
proof (cases callback)
  case None
  then show ?thesis by (simp add: wrapComponent_def)
next
  case (Some f)
  show ?thesis
  proof (cases "initialStateKey props \<noteq> [] \<and> stateKey props \<noteq> []")
    case True
    then show ?thesis
      using Some by (simp add: wrapComponent_def setInitialState_twice initialSetter_formState Let_def)
  next
    case False
    then show ?thesis using Some by (auto simp: wrapComponent_def)
  qed
qed

lemma wrapComponent_runs:
  "runs (snd (wrapComponent callback initial props s)) \<le> Suc (runs (snd s))"
  by (cases callback) (simp_all add: wrapComponent_def setInitialState_runs)

lemma wrapComponent_stateChanged:
  "\<not> stateChanged (fst s) \<Longrightarrow> \<not> stateChanged (fst (wrapComponent callback initial props s))"
  by (cases callback)
     (simp_all add: wrapComponent_def setInitialState_def initialSetter_stateChanged Let_def)

lemma wrapComponent_funpow:
  "((wrapComponent callback initial props) ^^ Suc n) s = wrapComponent callback initial props s"
proof (induction n)
  case 0
  then show ?case by simp
next
  case (Suc n)
  have "((wrapComponent callback initial props) ^^ Suc (Suc n)) s
          = wrapComponent callback initial props
              (((wrapComponent callback initial props) ^^ Suc n) s)"
    by simp
  also have "\<dots> = wrapComponent callback initial props (wrapComponent callback initial props s)"
    by (simp only: Suc.IH)
  finally show ?case by (simp only: wrapComponent_twice)
qed

lemma field_run_renders:
  "field_run callback initial props (replicate n Render)
     = ((wrapComponent callback initial props) ^^ n) (state_initialState, unmounted)"
proof -
  have "fold (field_step callback initial props) (replicate n Render) s
          = ((wrapComponent callback initial props) ^^ n) s" for s
    by (induction n arbitrary: s) (simp_all add: funpow_swap1)
  then show ?thesis by (simp add: field_run_def)
qed

text \<open>
  Claim C4. For every field and every projector: seeding twice with the same values
  gives the store that seeding once gives; a second render of the field with no write
  in between leaves the store, and so \<open>displayState\<close> and \<open>displayMeta\<close>, as the first
  render left them; \<open>stateChanged\<close> is false after both when it was false before; and
  the effect runs at most once in the two renders. From the mount of the field, any
  number of renders with no write in between is one render: the seeding has run at most
  once and \<open>stateChanged\<close> is false.
\<close>

theorem seeding_idempotent:
  "initialSetter k state meta (initialSetter k state meta st) = initialSetter k state meta st \<and>
   wrapComponent callback initial props (wrapComponent callback initial props s)
     = wrapComponent callback initial props s \<and>
   (\<not> stateChanged (fst s) \<longrightarrow>
      \<not> stateChanged (fst (wrapComponent callback initial props
                             (wrapComponent callback initial props s)))) \<and>
   runs (snd (wrapComponent callback initial props (wrapComponent callback initial props s)))
     \<le> runs (snd s) + 1 \<and>
   field_run callback initial props (replicate (Suc n) Render)
     = field_run callback initial props [Render] \<and>
   runs (snd (field_run callback initial props (replicate (Suc n) Render))) \<le> 1 \<and>
   \<not> stateChanged (fst (field_run callback initial props (replicate (Suc n) Render)))"
proof -
  let ?w = "wrapComponent callback initial props"
  let ?s0 = "(state_initialState, unmounted)"
  have one: "field_run callback initial props (replicate (Suc n) Render) = ?w ?s0"
    by (simp only: field_run_renders wrapComponent_funpow)
  have single: "field_run callback initial props [Render] = ?w ?s0"
    by (simp add: field_run_def)
  have r: "runs (snd (?w ?s0)) \<le> 1"
    using wrapComponent_runs [of callback initial props ?s0] by (simp add: unmounted_def)
  have c: "\<not> stateChanged (fst (?w ?s0))"
    by (rule wrapComponent_stateChanged) (simp add: state_initialState_def)
  show ?thesis
    using initialSetter_idem wrapComponent_twice wrapComponent_stateChanged
      wrapComponent_runs [of callback initial props s] one single r c
    by simp
qed

text \<open>
  An instance: the field \<open>email\<close> mounts on the fresh store and renders three times; it
  is seeded once.
\<close>

theorem seeding_idempotent_witness:
  "\<not> stateChanged (fst (state_initialState, unmounted)) \<and>
   field_run (Some own_projector) [(''email'', JStr ''a@b.com'')]
     \<lparr>stateKey = ''email'', initialStateKey = ''email''\<rparr> [Render, Render, Render]
   = (\<lparr>formState = empty_map,
       displayState = \<lparr>own = [(''email'', JStr ''a@b.com'')], prototype = ObjectPrototype\<rparr>,
       formMeta = empty_map,
       displayMeta = \<lparr>own = [(''email'', JStr ''a@b.com'')], prototype = ObjectPrototype\<rparr>,
       stateChanged = False\<rparr>,
      \<lparr>lastDeps = Some [Val JUndefined], runs = 1\<rparr>)"
proof -
  let ?run = "field_run (Some own_projector) [(''email'', JStr ''a@b.com'')]
     \<lparr>stateKey = ''email'', initialStateKey = ''email''\<rparr>"
  have three: "[Render, Render, Render] = replicate (Suc 2) Render"
    by (simp add: numeral_2_eq_2)
  have "?run [Render, Render, Render] = ?run [Render]"
    unfolding three
    using seeding_idempotent [of _ _ _ _ "Some own_projector" "[(''email'', JStr ''a@b.com'')]"
            "\<lparr>stateKey = ''email'', initialStateKey = ''email''\<rparr>" _ 2]
    by blast
  moreover have "?run [Render]
   = (\<lparr>formState = empty_map,
       displayState = \<lparr>own = [(''email'', JStr ''a@b.com'')], prototype = ObjectPrototype\<rparr>,
       formMeta = empty_map,
       displayMeta = \<lparr>own = [(''email'', JStr ''a@b.com'')], prototype = ObjectPrototype\<rparr>,
       stateChanged = False\<rparr>,
      \<lparr>lastDeps = Some [Val JUndefined], runs = 1\<rparr>)"
    by (simp add: field_run_def wrapComponent_def setInitialState_def useEffect_fires_def
          unmounted_def own_projector_def initialSetter_eq
          state_initialState_def empty_map_def js_read_def from_Object_prototype_def
          object_prototype_methods_def js_extend_def js_get_def js_set_def Let_def)
  ultimately show ?thesis by (simp add: state_initialState_def)
qed

section \<open>The required registry\<close>

lemma setRequired_get:
  "js_get (setRequired k opts rc) j = (if j = k then Some (required_entry k opts) else js_get rc j)"
  by (simp add: setRequired_def required_reducer_def js_get_set)

text \<open>
  For a key that \<open>Object.prototype\<close> does not have, an unregistered field is not missing;
  after the empty handler is registered, for any key, \<open>isMissing\<close> is the negation of the
  truthiness of what the state getter returns at the time of the call.
\<close>

lemma isMissing_default:
  "(js_get rc k = None \<and> \<not> inherited_key k \<longrightarrow> isMissing getState getError rc k = Inr False) \<and>
   isMissing getState getError
       (setRequired k \<lparr>opt_displayMessage = None, opt_isRequired = None\<rparr> rc) k
     = Inr (\<not> truthy_read (getState k))"
  by (simp add: isMissing_def js_lookup_def setRequired_get required_entry_def)

text \<open>
  Claim C6 says that \<open>isMissing\<close> is false for every key without a registered handler.
  With no handler registered at all, \<open>requiredComponents["constructor"]\<close> is the
  constructor that \<open>{}\<close> inherits: it is truthy, it has no \<open>isRequired\<close>, and the call
  raises a \<open>TypeError\<close>.
\<close>

theorem isMissing_unregistered_constructor:
  "js_get required_initialState ''constructor'' = None \<and>
   isMissing (getComponentState state_initialState) (getComponentError error_initialState)
     required_initialState ''constructor'' = Inl TypeError"
  by (simp add: isMissing_def js_lookup_def required_initialState_def js_get_Nil
        inherited_key_def object_prototype_methods_def)

section \<open>The error store\<close>

lemma js_spread_get:
  "js_object extra \<Longrightarrow>
   js_get (js_spread base extra) f = (case js_get extra f of None \<Rightarrow> js_get base f | Some v \<Rightarrow> Some v)"
proof (induction extra arbitrary: base)
  case Nil
  then show ?case by (simp add: js_spread_def js_get_Nil)
next
  case (Cons p extra)
  obtain a b where p: "p = (a, b)" by (cases p)
  from Cons.prems have d: "js_object extra" and fresh: "a \<notin> set (js_keys extra)"
    by (simp_all add: js_object_def js_keys_def p)
  have "js_spread base (p # extra) = js_spread (js_set a b base) extra"
    by (simp add: js_spread_def p)
  moreover have "js_get extra a = None" using fresh by (simp add: js_get_None_iff)
  ultimately show ?case using Cons.IH [OF d, of "js_set a b base"]
    by (auto simp: p js_get_set js_get_Cons split: option.splits)
qed

lemma setFormError_read:
  "getComponentError (setFormError k e errs) k =
     Own (js_spread [(''displayError'', JStr (k @ '' Error''))] e)"
  by (simp add: getComponentError_def setFormError_def error_reducer_def js_lookup_def js_get_set)

text \<open>
  Claim C7, as the code has it. \<open>setFormError k e\<close> stores at \<open>k\<close> an object that contains
  every field of \<open>e\<close>; its \<open>displayError\<close> is \<open>"<k> Error"\<close> when \<open>e\<close> has no
  \<open>displayError\<close>, and the \<open>displayError\<close> of \<open>e\<close> otherwise.
\<close>

theorem setFormError_merges:
  "js_object e \<Longrightarrow>
   (\<forall>f v. js_get e f = Some v \<longrightarrow>
      js_prop (getComponentError (setFormError k e errs) k) f = Some v) \<and>
   js_prop (getComponentError (setFormError k e errs) k) ''displayError'' =
     (case js_get e ''displayError'' of
        None \<Rightarrow> Some (JStr (k @ '' Error'')) | Some supplied \<Rightarrow> Some supplied)"
  by (auto simp: setFormError_read js_spread_get js_get_Cons js_get_Nil split: option.splits)

text \<open>An instance of each case: an error without, and one with, its own \<open>displayError\<close>.\<close>

theorem setFormError_merges_witness:
  "js_object [(''code'', JNum 3)] \<and>
   js_get [(''code'', JNum 3)] ''code'' = Some (JNum 3) \<and>
   js_prop (getComponentError (setFormError ''a'' [(''code'', JNum 3)] error_initialState) ''a'')
       ''code'' = Some (JNum 3) \<and>
   js_prop (getComponentError (setFormError ''a'' [(''code'', JNum 3)] error_initialState) ''a'')
       ''displayError'' = Some (JStr ''a Error'') \<and>
   js_object [(''code'', JNum 3), (''displayError'', JStr ''bad'')] \<and>
   js_prop (getComponentError
        (setFormError ''a'' [(''code'', JNum 3), (''displayError'', JStr ''bad'')]
           error_initialState) ''a'')
       ''displayError'' = Some (JStr ''bad'')"
proof -
  have o1: "js_object [(''code'', JNum 3)]" by (simp add: js_object_def js_keys_def)
  have o2: "js_object [(''code'', JNum 3), (''displayError'', JStr ''bad'')]"
    by (simp add: js_object_def js_keys_def)
  from setFormError_merges [OF o1, of "''a''" error_initialState]
       setFormError_merges [OF o2, of "''a''" error_initialState] o1 o2
  show ?thesis by (simp add: js_get_Cons js_get_Nil)
qed

text \<open>
  Claim C7 as stated says that the stored \<open>displayError\<close> is \<open>"<k> Error"\<close> exactly when \<open>e\<close>
  supplies none. An error may supply that very text.
\<close>

theorem setFormError_own_default_text:
  "\<not> (js_prop (getComponentError
           (setFormError ''a'' [(''displayError'', JStr ''a Error'')] error_initialState) ''a'')
          ''displayError'' = Some (JStr (''a'' @ '' Error''))
       \<longleftrightarrow> js_get [(''displayError'', JStr ''a Error'')] ''displayError'' = None)"
  by (simp add: setFormError_read js_spread_def js_set_def js_get_def)

section \<open>The snapshot (\<open>onButtonClick\<close>)\<close>

lemma getFormRequired_Nil:
  "getFormRequired gs ge [] = \<lparr>rms_own = [], rms_prototype = None\<rparr>"
  by (simp add: getFormRequired_def js_keys_def)

lemma anyMissing_Nil: "anyMissing gs ge [] = False"
  by (simp add: anyMissing_def getFormRequired_Nil)

text \<open>The event copies the store and the errors.\<close>

lemma onButtonClick_copies_store:
  "onButtonClick props form buttonID buttonData = Some ev \<Longrightarrow>
   formState (ev_state ev) = formState (f_state form) \<and>
   displayState (ev_state ev) = displayState (f_state form) \<and>
   formMeta (ev_state ev) = formMeta (f_state form) \<and>
   displayMeta (ev_state ev) = displayMeta (f_state form) \<and>
   stateChanged (ev_state ev) = stateChanged (f_state form) \<and>
   ev_formErrors ev = f_errors form"
  by (auto simp: onButtonClick_def split: if_splits)

text \<open>
  On the store that \<open>setFormState "a" "x"\<close> writes on the fresh one, the event is the one
  of the snapshot property.
\<close>

lemma onButtonClick_after_setFormState:
  "p_onButtonClick props \<Longrightarrow> p_loading props \<in> {None, Some False} \<Longrightarrow>
   \<exists>ev. onButtonClick props
          \<lparr>f_state = setFormState ''a'' (JStr ''x'') meta state_initialState,
           f_errors = error_initialState, f_loading = loading_initialState,
           f_mounting = toggleMounting_effect mounting_initialState,
           f_required = required_initialState\<rparr>
          None None = Some ev \<and>
        ev_id ev = ''submit'' \<and>
        ev_type ev = ''buttonClick'' \<and>
        own (formState (ev_state ev)) = [(''a'', JStr ''x'')] \<and>
        stateChanged (ev_state ev) = True \<and>
        ev_formLoading (ev_state ev) = False \<and>
        ev_formMounting (ev_state ev) = False \<and>
        ev_anyMissing ev = False \<and>
        rms_own (ev_required ev) = [] \<and>
        ev_formErrors ev = [] \<and>
        ev_buttonData ev = []"
  by (auto simp: onButtonClick_def setFormState_eq state_initialState_def error_initialState_def
        loading_initialState_def required_initialState_def loading_def formLoading_def js_keys_def
        getFormRequired_Nil anyMissing_Nil js_set_def js_extend_def empty_map_def
        toggleMounting_effect_def)

text \<open>
  Claim C5 says that with \<open>formState = { a: "x" }\<close>, no errors, no required handlers,
  no loading and mounting settled, the event of \<open>onButtonClick()\<close> has
  \<open>state.stateChanged = true\<close>. The flag is copied from the store. The field \<open>a\<close> mounts
  on a form with the initial state \<open>{ a: "init" }\<close>, the user types \<open>"x"\<close>, and the next
  render seeds the field again, which sets the flag to false: the event has
  \<open>state.formState = { a: "x" }\<close> and \<open>state.stateChanged = false\<close>.
\<close>

theorem onButtonClick_after_reseeding:
  "onButtonClick (defaultProps \<lparr>p_initialState = Some [(''a'', JStr ''init'')],
                               p_onButtonClick = True, p_loading = None\<rparr>)
     \<lparr>f_state = fst (field_run (Some own_projector) [(''a'', JStr ''init'')]
                       \<lparr>stateKey = ''a'', initialStateKey = ''a''\<rparr>
                       [Render, SetState (JStr ''x'') JUndefined, Render]),
      f_errors = error_initialState, f_loading = loading_initialState,
      f_mounting = toggleMounting_effect mounting_initialState,
      f_required = required_initialState\<rparr>
     None None
   = Some \<lparr>ev_id = ''submit'', ev_type = ''buttonClick'',
        ev_state =
          \<lparr>formState = \<lparr>own = [(''a'', JStr ''x'')], prototype = ObjectPrototype\<rparr>,
           displayState = \<lparr>own = [(''a'', JStr ''init'')], prototype = ObjectPrototype\<rparr>,
           formMeta = empty_map,
           displayMeta = \<lparr>own = [(''a'', JStr ''init'')], prototype = ObjectPrototype\<rparr>,
           stateChanged = False,
           ev_formLoading = False, ev_formMounting = False,
           ev_initialState = [(''a'', JStr ''init'')]\<rparr>,
        ev_formErrors = [], ev_buttonData = [],
        ev_required = \<lparr>rms_own = [], rms_prototype = None\<rparr>, ev_anyMissing = False\<rparr>"
proof -
  have r: "fst (field_run (Some own_projector) [(''a'', JStr ''init'')]
                       \<lparr>stateKey = ''a'', initialStateKey = ''a''\<rparr>
                       [Render, SetState (JStr ''x'') JUndefined, Render])
     = \<lparr>formState = \<lparr>own = [(''a'', JStr ''x'')], prototype = ObjectPrototype\<rparr>,
        displayState = \<lparr>own = [(''a'', JStr ''init'')], prototype = ObjectPrototype\<rparr>,
        formMeta = empty_map,
        displayMeta = \<lparr>own = [(''a'', JStr ''init'')], prototype = ObjectPrototype\<rparr>,
        stateChanged = False\<rparr>"
    by (simp add: field_run_def wrapComponent_def setInitialState_def useEffect_fires_def
          unmounted_def own_projector_def initialSetter_eq setFormState_eq
          state_initialState_def empty_map_def js_read_def from_Object_prototype_def
          object_prototype_methods_def js_extend_def js_get_def js_set_def Let_def)
  show ?thesis
    unfolding r
    by (simp add: onButtonClick_def defaultProps_def error_initialState_def
          loading_initialState_def required_initialState_def loading_def formLoading_def
          js_keys_def getFormRequired_Nil anyMissing_Nil toggleMounting_effect_def)
qed

text \<open>
  After any sequence of \<open>setFormState\<close> calls on the fresh store the committed and the
  displayed mappings are the same.
\<close>

lemma setFormState_sequence_agree:
  "formState (fold (\<lambda>(k, s, m). setFormState k s m) writes state_initialState)
     = displayState (fold (\<lambda>(k, s, m). setFormState k s m) writes state_initialState) \<and>
   formMeta (fold (\<lambda>(k, s, m). setFormState k s m) writes state_initialState)
     = displayMeta (fold (\<lambda>(k, s, m). setFormState k s m) writes state_initialState)"
proof -
  have "formState st = displayState st \<and> formMeta st = displayMeta st \<Longrightarrow>
        formState (fold (\<lambda>(k, s, m). setFormState k s m) writes st)
          = displayState (fold (\<lambda>(k, s, m). setFormState k s m) writes st) \<and>
        formMeta (fold (\<lambda>(k, s, m). setFormState k s m) writes st)
          = displayMeta (fold (\<lambda>(k, s, m). setFormState k s m) writes st)" for st
  proof (induction writes arbitrary: st)
    case Nil
    then show ?case by simp
  next
    case (Cons w writes)
    obtain k s m where w: "w = (k, s, m)" by (cases w)
    have "formState (setFormState k s m st) = displayState (setFormState k s m st) \<and>
          formMeta (setFormState k s m st) = displayMeta (setFormState k s m st)"
      using Cons.prems by (simp add: setFormState_eq)
    from Cons.IH [OF this] show ?case by (simp add: w)
  qed
  then show ?thesis by (simp add: state_initialState_def)
qed

end
